theory Spec2Isabelle
  imports Main "HOL-Library.Word" "HOL-Library.Sublist"
begin

section \<open>go-torrentapi: the request lifecycle of the option-configurable client\<close>

text \<open>
  A shallow embedding of the final, option-configurable client of the repository
  (\<^verbatim>\<open>type API\<close> with \<^verbatim>\<open>New\<close>, \<^verbatim>\<open>call\<close>, \<^verbatim>\<open>processResponse\<close>, \<^verbatim>\<open>renewToken\<close> and
  \<^verbatim>\<open>makeRequest\<close>). Go's \<^verbatim>\<open>int\<close> is the 64-bit two's complement integer of the
  64-bit targets, strings are byte strings. Mutation of the receiver \<^verbatim>\<open>a *API\<close> is
  explicit state passing; everything outside the package (the HTTP client, the
  clock, \<^verbatim>\<open>encoding/json\<close>) is a parameter.
\<close>

subsection \<open>Data\<close>

type_synonym go_int = "64 word"

text \<open>
  \<^verbatim>\<open>time.Time\<close> as a position on one time line, in nanoseconds; the zero value
  \<^verbatim>\<open>time.Time{}\<close> is the instant 0. \<^verbatim>\<open>time.Duration\<close> is a signed number of nanoseconds.
\<close>

type_synonym instant = int
type_synonym duration = int

record Token =
  Token :: string
  Expires :: instant

record EpisodeInfo =
  ImDB :: string
  TvDB :: string
  TvRage :: string
  TheMovieDb :: string
  AirDate :: string
  SeasonNum :: string
  EpisodeNum :: string
  EpisodeTitle :: string

record TorrentResult =
  Title :: string
  Filename :: string
  CategoryName :: string
  Download :: string
  Seeders :: go_int
  Leechers :: go_int
  Size :: "64 word"
  PubDate :: string
  RankedFlag :: go_int
  InfoPage :: string
  EpisodeInfo :: EpisodeInfo

text \<open>
  \<^verbatim>\<open>type TorrentResults []TorrentResult\<close>. Go tells a nil slice from an empty one:
  \<open>None\<close> is \<^verbatim>\<open>nil\<close>, \<open>Some []\<close> is the empty slice \<^verbatim>\<open>TorrentResults{}\<close>.
\<close>

type_synonym TorrentResults = "TorrentResult list option"

text \<open>
  \<^verbatim>\<open>Torrents json.RawMessage\<close> is a byte slice: \<open>None\<close> when it is \<^verbatim>\<open>nil\<close> (the key
  \<^verbatim>\<open>torrent_results\<close> was absent), \<open>Some bytes\<close> otherwise.
\<close>

record APIResponse =
  Torrents :: "string option"
  Error :: string
  ErrorCode :: go_int

text \<open>
  The receiver. The field \<^verbatim>\<open>client *http.Client\<close> is the environment below: the
  receiver is one with a client, as \<^verbatim>\<open>New\<close> builds it.
\<close>

record API =
  Query :: string
  APIToken :: Token
  categories :: "go_int list"
  appID :: string
  reqDelay :: duration
  tokenExpiration :: duration
  url :: string
  maxRetries :: go_int

definition DefaultAPIURL :: string where
  "DefaultAPIURL = ''https://torrentapi.org/pubapi_v2.php?''"

definition DefaultTokenExpiration :: duration where
  "DefaultTokenExpiration = 1000000000 * 890"

definition DefaultRequestDelay :: duration where
  "DefaultRequestDelay = 1000000000 * 2"

definition DefaultMaxRetries :: go_int where
  "DefaultMaxRetries = 10"

definition tokenExpiredCode :: go_int where
  "tokenExpiredCode = 4"

definition noResultsCode :: go_int where
  "noResultsCode = 20"

definition imdbNotFound :: go_int where
  "imdbNotFound = 10"

subsection \<open>Errors\<close>

text \<open>
  The values of Go's \<^verbatim>\<open>error\<close> interface that this package can hold. One constructor
  for each place that makes an error; the arguments are the arguments of the format
  string. \<^verbatim>\<open>*expiredTokenError\<close> is the package's own error type, the only one
  \<^verbatim>\<open>call\<close> tests for with a type assertion. An error of \<^verbatim>\<open>net/http\<close> or
  \<^verbatim>\<open>encoding/json\<close> is known by its message only.
\<close>

datatype error =
    expiredTokenError string
      \<comment> \<open>\<^verbatim>\<open>&expiredTokenError{s: s}\<close>\<close>
  | UnmarshalError string string
      \<comment> \<open>\<^verbatim>\<open>fmt.Errorf("query: %s, Error: %s", a.Query, err.Error())\<close>\<close>
  | APIError string string go_int
      \<comment> \<open>\<^verbatim>\<open>fmt.Errorf("query: %s, Error: %s, Error code: %d)", a.Query, apiResponse.Error, ec)\<close>\<close>
  | UnknownError string APIResponse
      \<comment> \<open>\<^verbatim>\<open>fmt.Errorf("query: %s, Unknown error, got response: %v", a.Query, apiResponse)\<close>\<close>
  | TokenDecodeError string
      \<comment> \<open>\<^verbatim>\<open>fmt.Errorf("error decoding token: %v", err)\<close>\<close>
  | MaxAttemptsError
      \<comment> \<open>\<^verbatim>\<open>errors.New("maximum number of attempts reached")\<close>\<close>
  | StatusError go_int string
      \<comment> \<open>\<^verbatim>\<open>fmt.Errorf("non 200-OK respose: Code(%d) Status(%s)", resp.StatusCode, resp.Status)\<close>\<close>
  | NewRequestError string
      \<comment> \<open>\<^verbatim>\<open>fmt.Errorf("failed to create http request: %v", err)\<close>\<close>
  | LibraryError string
      \<comment> \<open>an error of \<^verbatim>\<open>client.Do\<close> or of the JSON decoder, handed on as it is\<close>

subsection \<open>The environment\<close>

record Response =
  StatusCode :: go_int
  Status :: string
  Body :: string

text \<open>What \<^verbatim>\<open>a.client.Do(req)\<close> gives: an error, or a response.\<close>

datatype outcome = Failed string | Answer Response

text \<open>
  What lies outside the package and does not change during a call:
  \<^item> \<open>transport n u\<close>: the outcome of the \<open>n\<close>-th request of the run (counted from 0)
    when it asks for the URL \<open>u\<close>;
  \<^item> \<open>NewRequest u\<close>: the error of \<^verbatim>\<open>http.NewRequest("GET", u, nil)\<close>, if any;
  \<^item> \<open>DecodeAPIResponse b\<close>: \<^verbatim>\<open>json.NewDecoder(body).Decode(&apiResponse)\<close> on the body
    \<open>b\<close>; the decoded value is read by the callers only when the error is nil;
  \<^item> \<open>DecodeToken b\<close>: \<^verbatim>\<open>json.NewDecoder(body).Decode(&token)\<close> on a zero \<^verbatim>\<open>Token\<close>:
    the credential the decoder left in \<^verbatim>\<open>token.Token\<close> and its error, if any
    (\<^verbatim>\<open>Expires\<close> carries the tag \<^verbatim>\<open>json:"-"\<close> and is never written);
  \<^item> \<open>Unmarshal p\<close>: \<^verbatim>\<open>json.Unmarshal(p, &data)\<close> on a nil \<^verbatim>\<open>data\<close>: an error, or the
    slice left in \<^verbatim>\<open>data\<close>.
\<close>

record extern =
  transport :: "nat \<Rightarrow> string \<Rightarrow> outcome"
  NewRequest :: "string \<Rightarrow> string option"
  DecodeAPIResponse :: "string \<Rightarrow> string + APIResponse"
  DecodeToken :: "string \<Rightarrow> string \<times> string option"
  Unmarshal :: "string \<Rightarrow> string + TorrentResults"

text \<open>
  What a call changes outside the receiver: the number of requests handed to the
  client so far, the log of the effects (each request with its URL, each sleep with
  its duration), and the clock read by \<^verbatim>\<open>time.Now()\<close>. In this model the clock moves
  only while the program sleeps. The header \<^verbatim>\<open>User-Agent\<close> that \<^verbatim>\<open>makeRequest\<close> sets on
  every request is not part of the log.
\<close>

datatype event = GET string | SLEEP duration

record world =
  served :: nat
  events :: "event list"
  now :: instant

definition Do :: "extern \<Rightarrow> string \<Rightarrow> world \<Rightarrow> outcome \<times> world" where
  "Do E u w =
     (transport E (served w) u,
      w\<lparr>served := served w + 1, events := events w @ [GET u]\<rparr>)"

text \<open>\<^verbatim>\<open>time.Sleep(d)\<close> returns at once when \<open>d \<le> 0\<close>.\<close>

definition Sleep :: "duration \<Rightarrow> world \<Rightarrow> world" where
  "Sleep d w = w\<lparr>events := events w @ [SLEEP d], now := now w + max 0 d\<rparr>"

subsection \<open>Token\<close>

text \<open>\<^verbatim>\<open>func (t *Token) IsValid() bool\<close>, with the reading of \<^verbatim>\<open>time.Now()\<close> as argument.\<close>

definition IsValid :: "instant \<Rightarrow> Token \<Rightarrow> bool" where
  "IsValid t_now t =
     (if Token t = [] then False
      else if t_now > Expires t then False
      else True)"

subsection \<open>Query builder\<close>

text \<open>
  \<^verbatim>\<open>Category\<close> appends to the category list and leaves the query string alone; the
  other configuration methods append one parameter to \<^verbatim>\<open>a.Query\<close> and are not needed
  here.
\<close>

definition Category :: "go_int \<Rightarrow> API \<Rightarrow> API" where
  "Category category a = a\<lparr>categories := categories a @ [category]\<rparr>"

text \<open>\<^verbatim>\<open>initQuery\<close>: \<^verbatim>\<open>a.categories = a.categories[:0]; a.Query = ""\<close>.\<close>

definition initQuery :: "API \<Rightarrow> API" where
  "initQuery a = a\<lparr>categories := [], Query := []\<rparr>"

text \<open>\<^verbatim>\<open>strconv.Itoa\<close>: the decimal digits, after a minus sign for a negative number.\<close>

definition digit :: "int \<Rightarrow> char" where
  "digit n = ''0123456789'' ! nat n"

function decimal :: "int \<Rightarrow> string" where
  "decimal n = (if n < 10 then [digit n] else decimal (n div 10) @ [digit (n mod 10)])"
  by pat_completeness auto
termination
  by (relation "measure nat") auto

definition Itoa :: "go_int \<Rightarrow> string" where
  "Itoa i = (if sint i < 0 then CHR ''-'' # decimal (- sint i) else decimal (sint i))"

text \<open>\<^verbatim>\<open>strings.Join(elems, sep)\<close>.\<close>

fun Join :: "string list \<Rightarrow> string \<Rightarrow> string" where
  "Join [] sep = []"
| "Join [x] sep = x"
| "Join (x # y # ys) sep = x @ sep @ Join (y # ys) sep"

subsection \<open>Transport\<close>

text \<open>
  \<^verbatim>\<open>makeRequest\<close>: the loop \<^verbatim>\<open>for { maxAttempts--; ... }\<close>, entered with
  \<^verbatim>\<open>maxAttempts := a.maxRetries\<close>. Every \<^verbatim>\<open>return\<close> gives either a response or an error.
  The decrement wraps around at the smallest \<^verbatim>\<open>int\<close>, as Go's does.
\<close>

function makeRequest_loop ::
  "extern \<Rightarrow> API \<Rightarrow> string \<Rightarrow> go_int \<Rightarrow> world \<Rightarrow> (error + Response) \<times> world" where
  "makeRequest_loop E a query maxAttempts w =
     (case NewRequest E query of
        Some e \<Rightarrow> (Inl (NewRequestError e), w)
      | None \<Rightarrow>
          (case Do E query w of
             (Failed e, w') \<Rightarrow> (Inl (LibraryError e), w')
           | (Answer resp, w') \<Rightarrow>
               if StatusCode resp = 200 then (Inr resp, w')
               else if StatusCode resp = 429 then
                 (if 0 <s maxAttempts - 1
                  then makeRequest_loop E a query (maxAttempts - 1) (Sleep (reqDelay a) w')
                  else (Inl MaxAttemptsError, w'))
               else (Inl (StatusError (StatusCode resp) (Status resp)), w')))"
  by pat_completeness auto
termination
proof (relation "measure (\<lambda>(E, a, query, maxAttempts, w). unat (maxAttempts - 1))")
  show "wf (measure (\<lambda>(E, a, query, maxAttempts, w). unat (maxAttempts - 1)))"
    by simp
next
  fix E :: extern and a :: API and query :: string and maxAttempts :: go_int and w :: world
  assume "0 <s maxAttempts - 1"
  then have nz: "maxAttempts - 1 \<noteq> 0"
    by auto
  have "unat (maxAttempts - 1 - 1) = unat (maxAttempts - 1) - 1"
    by (rule unat_minus_one [OF nz])
  moreover from nz have "unat (maxAttempts - 1) \<noteq> 0"
    by (simp add: unat_eq_0)
  ultimately have "unat (maxAttempts - 1 - 1) < unat (maxAttempts - 1)"
    by simp
  then show "\<And>w'. ((E, a, query, maxAttempts - 1, Sleep (reqDelay a) w'), E, a, query, maxAttempts, w)
      \<in> measure (\<lambda>(E, a, query, maxAttempts, w). unat (maxAttempts - 1))"
    by simp
qed

declare makeRequest_loop.simps [simp del]

definition makeRequest :: "extern \<Rightarrow> API \<Rightarrow> string \<Rightarrow> world \<Rightarrow> (error + Response) \<times> world" where
  "makeRequest E a query w = makeRequest_loop E a query (maxRetries a) w"

subsection \<open>Token renewal\<close>

text \<open>
  \<^verbatim>\<open>renewToken\<close> returns a token beside the error: the zero \<^verbatim>\<open>Token\<close> when the request
  failed, the token as the decoder left it when decoding failed.
\<close>

definition zeroToken :: Token where
  "zeroToken = \<lparr>Token = [], Expires = 0\<rparr>"

definition tokenURL :: "API \<Rightarrow> string" where
  "tokenURL a = url a @ ''get_token=get_token&app_id='' @ appID a"

definition renewToken :: "extern \<Rightarrow> API \<Rightarrow> world \<Rightarrow> (Token \<times> error option) \<times> world" where
  "renewToken E a w =
     (case makeRequest E a (tokenURL a) w of
        (Inl err, w') \<Rightarrow> ((zeroToken, Some err), w')
      | (Inr resp, w') \<Rightarrow>
          (case DecodeToken E (Body resp) of
             (s, Some err) \<Rightarrow> ((zeroToken\<lparr>Token := s\<rparr>, Some (TokenDecodeError err)), w')
           | (s, None) \<Rightarrow>
               ((zeroToken\<lparr>Token := s, Expires := now w' + tokenExpiration a\<rparr>, None), w')))"

subsection \<open>Response interpreter\<close>

text \<open>
  \<^verbatim>\<open>getResults\<close>. Go returns \<^verbatim>\<open>&apiResponse\<close> beside the decoder's error; \<^verbatim>\<open>call\<close>, its
  only caller, drops the response when the error is not nil.
\<close>

definition getResults :: "extern \<Rightarrow> API \<Rightarrow> string \<Rightarrow> world \<Rightarrow> (error + APIResponse) \<times> world" where
  "getResults E a query w =
     (case makeRequest E a query w of
        (Inl err, w') \<Rightarrow> (Inl err, w')
      | (Inr resp, w') \<Rightarrow>
          (case DecodeAPIResponse E (Body resp) of
             Inl err \<Rightarrow> (Inl (LibraryError err), w')
           | Inr apiResponse \<Rightarrow> (Inr apiResponse, w')))"

text \<open>
  \<^verbatim>\<open>processResponse\<close>: \<open>Inl err\<close> is \<^verbatim>\<open>return nil, err\<close>, \<open>Inr data\<close> is
  \<^verbatim>\<open>return data, nil\<close>, and \<open>Inr None\<close> is \<^verbatim>\<open>return nil, nil\<close>.
\<close>

definition processResponse :: "extern \<Rightarrow> API \<Rightarrow> APIResponse \<Rightarrow> error + TorrentResults" where
  "processResponse E a apiResponse =
     (case Torrents apiResponse of
        Some payload \<Rightarrow>
          (case Unmarshal E payload of
             Inl err \<Rightarrow> Inl (UnmarshalError (Query a) err)
           | Inr data \<Rightarrow> Inr data)
      | None \<Rightarrow>
          if Error apiResponse \<noteq> [] then
            (let ec = ErrorCode apiResponse in
             if ec = tokenExpiredCode then Inl (expiredTokenError ''expired token'')
             else if ec = imdbNotFound then Inr None
             else if ec = noResultsCode then Inr None
             else Inl (APIError (Query a) (Error apiResponse) ec))
          else Inl (UnknownError (Query a) apiResponse))"

subsection \<open>Call controller\<close>

text \<open>Lines 210 to 216 of \<^verbatim>\<open>call\<close>: the categories become one parameter of the query.\<close>

definition addCategories :: "API \<Rightarrow> API" where
  "addCategories a =
     (if length (categories a) > 0
      then a\<lparr>Query := Query a @ ''&category='' @ Join (map Itoa (categories a)) '';''\<rparr>
      else a)"

text \<open>Line 217: \<^verbatim>\<open>fmt.Sprintf("%s&token=%s%s&app_id=%s", a.url, a.APIToken.Token, a.Query, a.appID)\<close>.\<close>

definition assemble :: "API \<Rightarrow> string" where
  "assemble a = url a @ ''&token='' @ Token (APIToken a) @ Query a @ ''&app_id='' @ appID a"

text \<open>The statement \<^verbatim>\<open>a.APIToken, err = a.renewToken()\<close>: the token is stored whatever the error.\<close>

definition assignToken :: "extern \<Rightarrow> API \<Rightarrow> world \<Rightarrow> error option \<times> API \<times> world" where
  "assignToken E a w =
     (case renewToken E a w of ((tok, err), w') \<Rightarrow> (err, a\<lparr>APIToken := tok\<rparr>, w'))"

text \<open>Lines 225 to 234: the branch taken when the first error is an \<^verbatim>\<open>*expiredTokenError\<close>.\<close>

definition call_retry ::
  "extern \<Rightarrow> API \<Rightarrow> string \<Rightarrow> world \<Rightarrow> (error + TorrentResults) \<times> API \<times> world" where
  "call_retry E a query w =
     (case assignToken E a w of
        (Some err, a', w') \<Rightarrow> (Inl err, a', w')
      | (None, a', w') \<Rightarrow>
          (case getResults E a' query w' of
             (Inl err, w'') \<Rightarrow> (Inl err, a', w'')
           | (Inr apiResponse, w'') \<Rightarrow> (processResponse E a' apiResponse, a', w'')))"

text \<open>Lines 210 to 237: what \<^verbatim>\<open>call\<close> does once it holds a token it takes for valid.\<close>

definition call_request ::
  "extern \<Rightarrow> API \<Rightarrow> world \<Rightarrow> (error + TorrentResults) \<times> API \<times> world" where
  "call_request E a0 w =
     (let a = addCategories a0;
          query = assemble a
      in case getResults E a query w of
           (Inl err, w') \<Rightarrow> (Inl err, a, w')
         | (Inr apiResponse, w') \<Rightarrow>
             (case processResponse E a apiResponse of
                Inl err \<Rightarrow>
                  (case err of
                     expiredTokenError s \<Rightarrow> call_retry E a query w'
                   | _ \<Rightarrow> (Inl err, a, w'))
              | Inr data \<Rightarrow> (Inr data, a, w')))"

text \<open>Lines 203 to 209: the stored token is renewed when it is not valid.\<close>

definition ensureToken :: "extern \<Rightarrow> API \<Rightarrow> world \<Rightarrow> error option \<times> API \<times> world" where
  "ensureToken E a w =
     (if \<not> IsValid (now w) (APIToken a) then assignToken E a w else (None, a, w))"

text \<open>The body of \<^verbatim>\<open>call\<close>; the receiver is not yet reset.\<close>

definition call_body ::
  "extern \<Rightarrow> API \<Rightarrow> world \<Rightarrow> (error + TorrentResults) \<times> API \<times> world" where
  "call_body E a w =
     (case ensureToken E a w of
        (Some err, a', w') \<Rightarrow> (Inl err, a', w')
      | (None, a', w') \<Rightarrow> call_request E a' w')"

text \<open>
  \<^verbatim>\<open>call\<close>: the body, then the deferred \<^verbatim>\<open>a.initQuery()\<close>, which runs at every return.
  The result is what the caller gets, the receiver and the world as the call leaves them.
\<close>

definition call :: "extern \<Rightarrow> API \<Rightarrow> world \<Rightarrow> (error + TorrentResults) \<times> API \<times> world" where
  "call E a w = (case call_body E a w of (r, a', w') \<Rightarrow> (r, initQuery a', w'))"

subsection \<open>Observations and scenarios\<close>

text \<open>The URLs of the requests in a log, in the order they were sent.\<close>

fun urls :: "event list \<Rightarrow> string list" where
  "urls [] = []"
| "urls (GET u # es) = u # urls es"
| "urls (SLEEP d # es) = urls es"

text \<open>The status code of an outcome, when it is a response.\<close>

fun status_of :: "outcome \<Rightarrow> go_int option" where
  "status_of (Failed e) = None"
| "status_of (Answer resp) = Some (StatusCode resp)"

text \<open>
  What the requests for one URL \<open>q\<close> may change from the world \<open>w\<close> to the world
  \<open>w'\<close>: the log grows, every request it gains asks for \<open>q\<close>, and it gains at least
  one, the first thing it gains, exactly when \<open>q\<close> is a URL a request can be built for.
\<close>

definition sends :: "extern \<Rightarrow> string \<Rightarrow> world \<Rightarrow> world \<Rightarrow> bool" where
  "sends E q w w' \<longleftrightarrow>
     served w \<le> served w'
     \<and> (NewRequest E q = None) = (served w < served w')
     \<and> urls (events w') = urls (events w) @ replicate (served w' - served w) q
     \<and> prefix (events w) (events w')
     \<and> (NewRequest E q = None) = prefix (events w @ [GET q]) (events w')"

text \<open>
  The world after \<open>k\<close> attempts at the URL \<open>q\<close> that were each followed by a sleep
  of \<open>d\<close>.
\<close>

definition throttled :: "duration \<Rightarrow> string \<Rightarrow> nat \<Rightarrow> world \<Rightarrow> world" where
  "throttled d q k w =
     w\<lparr>served := served w + k, events := events w @ concat (replicate k [GET q, SLEEP d]),
       now := now w + int k * max 0 d\<rparr>"

text \<open>
  A server that answers the requests of a run from a list, whatever the URL; past the
  end of the list the connection fails.
\<close>

definition script :: "outcome list \<Rightarrow> nat \<Rightarrow> string \<Rightarrow> outcome" where
  "script rs n u = (if n < length rs then rs ! n else Failed ''connection refused'')"

definition ok :: "string \<Rightarrow> outcome" where
  "ok body = Answer \<lparr>StatusCode = 200, Status = ''200 OK'', Body = body\<rparr>"

definition tooMany :: outcome where
  "tooMany = Answer \<lparr>StatusCode = 429, Status = ''429 Too Many Requests'', Body = []\<rparr>"

definition error500 :: outcome where
  "error500 = Answer \<lparr>StatusCode = 500, Status = ''500 Internal Server Error'', Body = []\<rparr>"

text \<open>
  A small wire format for the scenarios: each body is a word, and the decoders know
  these words only. The word \<open>dup\<close> stands for a token object in which the decoder
  stores a credential and then meets a value of the wrong type, such as
  \<^verbatim>\<open>{"token":"abc","Token":5}\<close>: \<^verbatim>\<open>encoding/json\<close> skips the field it cannot store,
  completes the decoding and returns the type error. The word \<open>empty\<close> stands for
  the envelope \<^verbatim>\<open>{"torrent_results":[]}\<close> and the word \<open>null\<close> for
  \<^verbatim>\<open>{"torrent_results":null}\<close>: the raw payload of the second is the four bytes
  \<^verbatim>\<open>null\<close>, not a nil slice, and \<^verbatim>\<open>json.Unmarshal\<close> of \<^verbatim>\<open>null\<close> into a slice returns no
  error and leaves the slice nil, while an empty array leaves a new empty slice.
\<close>

definition demoDecodeAPIResponse :: "string \<Rightarrow> string + APIResponse" where
  "demoDecodeAPIResponse b =
     (if b = ''expired'' then Inr \<lparr>Torrents = None, Error = ''token expired'', ErrorCode = 4\<rparr>
      else if b = ''noresults'' then Inr \<lparr>Torrents = None, Error = ''no results'', ErrorCode = 20\<rparr>
      else if b = ''empty'' then Inr \<lparr>Torrents = Some ''[]'', Error = [], ErrorCode = 0\<rparr>
      else if b = ''null'' then Inr \<lparr>Torrents = Some ''null'', Error = [], ErrorCode = 0\<rparr>
      else Inl ''invalid character'')"

definition demoDecodeToken :: "string \<Rightarrow> string \<times> string option" where
  "demoDecodeToken b =
     (if b = ''tok'' then (''some_token'', None)
      else if b = ''dup'' then (''abc'', Some ''cannot unmarshal number into field of type string'')
      else ([], Some ''invalid character''))"

definition demoUnmarshal :: "string \<Rightarrow> string + TorrentResults" where
  "demoUnmarshal p =
     (if p = ''[]'' then Inr (Some [])
      else if p = ''null'' then Inr None
      else Inl ''unexpected end of JSON input'')"

definition demo :: "outcome list \<Rightarrow> extern" where
  "demo rs =
     \<lparr>transport = script rs, NewRequest = (\<lambda>u. None),
      DecodeAPIResponse = demoDecodeAPIResponse, DecodeToken = demoDecodeToken,
      Unmarshal = demoUnmarshal\<rparr>"

text \<open>The receiver as \<^verbatim>\<open>New("test")\<close> sets it up, holding a token that expires at 890.\<close>

definition demoAPI :: API where
  "demoAPI =
     \<lparr>Query = [], APIToken = \<lparr>Token = ''some_token'', Expires = 890\<rparr>, categories = [],
      appID = ''test'', reqDelay = DefaultRequestDelay, tokenExpiration = DefaultTokenExpiration,
      url = DefaultAPIURL, maxRetries = DefaultMaxRetries\<rparr>"

definition world0 :: world where
  "world0 = \<lparr>served = 0, events = [], now = 100\<rparr>"

text \<open>
  Four servers: one reports an expired token once and then limits the rate once,
  one answers the token request with the body \<open>dup\<close>, one reports an expired token
  before and after the renewal, one answers the search with the payload \<open>null\<close>.
\<close>

definition expiredOnce :: extern where
  "expiredOnce = demo [ok ''expired'', ok ''tok'', tooMany, ok ''empty'']"

definition brokenToken :: extern where
  "brokenToken = demo [ok ''dup'']"

definition twiceExpired :: extern where
  "twiceExpired = demo [ok ''expired'', ok ''tok'', ok ''expired'', ok ''empty'']"

definition nullPayload :: extern where
  "nullPayload = demo [ok ''null'']"

section \<open>Token validity\<close>

text \<open>
  Claim C2, as the code has it: \<^verbatim>\<open>IsValid\<close> is true exactly when the credential is not
  empty and the current time is not after the expiry instant. \<^verbatim>\<open>time.Now().After(t.Expires)\<close>
  is false when both instants are equal, so a token is still valid at the very instant
  it expires; it is not valid at any later instant, nor with an empty credential.
\<close>

theorem IsValid_iff:
  "IsValid t_now t \<longleftrightarrow> Token t \<noteq> [] \<and> t_now \<le> Expires t"
  by (auto simp: IsValid_def)

theorem IsValid_iff_witness:
  "IsValid 100 \<lparr>Token = ''test'', Expires = 200\<rparr>
   \<and> \<not> IsValid 100 \<lparr>Token = ''test'', Expires = 0\<rparr>
   \<and> \<not> IsValid 100 \<lparr>Token = [], Expires = 200\<rparr>"
  using IsValid_iff [of 100 "\<lparr>Token = ''test'', Expires = 200\<rparr>"]
    IsValid_iff [of 100 "\<lparr>Token = ''test'', Expires = 0\<rparr>"]
    IsValid_iff [of 100 "\<lparr>Token = [], Expires = 200\<rparr>"]
  by simp

text \<open>
  The claim as written asks for \<open>False\<close> whenever the expiry is not after the current
  time. At the instant 5 a token that expires at 5 is valid.
\<close>

theorem IsValid_boundary_counterexample:
  "IsValid 5 \<lparr>Token = ''abc'', Expires = 5\<rparr>
   \<and> Expires \<lparr>Token = ''abc'', Expires = 5\<rparr> \<le> (5::int)"
  by (simp add: IsValid_def)

section \<open>The query state after a call\<close>

text \<open>
  Claim C5: whatever the receiver, the environment and the outcome, the receiver that
  \<^verbatim>\<open>call\<close> leaves behind has an empty query string and a category list of length zero.
  \<^verbatim>\<open>call\<close> is a total function here (the retry loop of the transport terminates), so
  this covers every return.
\<close>

theorem call_resets_query:
  "Query (fst (snd (call E a w))) = [] \<and> length (categories (fst (snd (call E a w)))) = 0"
  by (simp add: call_def initQuery_def split: prod.split)

section \<open>Interpreting an error envelope\<close>

text \<open>
  Claim C6, as the code has it: for an envelope without payload and with an error
  text, the codes 10 and 20 give a nil result and no error, the code 4 gives the
  expired-token error (which carries neither the server's text nor the code), and every
  other code gives an error that carries the query, the server's text and the code.
\<close>

theorem processResponse_error_envelope:
  assumes "Torrents r = None" and "Error r \<noteq> []"
  shows "processResponse E a r =
     (if ErrorCode r = 10 \<or> ErrorCode r = 20 then Inr None
      else if ErrorCode r = 4 then Inl (expiredTokenError ''expired token'')
      else Inl (APIError (Query a) (Error r) (ErrorCode r)))"
  using assms
  by (simp add: processResponse_def tokenExpiredCode_def imdbNotFound_def noResultsCode_def)

theorem processResponse_error_envelope_witness:
  "processResponse (demo []) demoAPI \<lparr>Torrents = None, Error = ''no results'', ErrorCode = 20\<rparr>
     = Inr None
   \<and> processResponse (demo []) demoAPI \<lparr>Torrents = None, Error = ''not found'', ErrorCode = 10\<rparr>
     = Inr None
   \<and> processResponse (demo []) demoAPI \<lparr>Torrents = None, Error = ''bad request'', ErrorCode = 5\<rparr>
     = Inl (APIError [] ''bad request'' 5)"
  using
    processResponse_error_envelope [of "\<lparr>Torrents = None, Error = ''no results'', ErrorCode = 20\<rparr>"
      "demo []" demoAPI]
    processResponse_error_envelope [of "\<lparr>Torrents = None, Error = ''not found'', ErrorCode = 10\<rparr>"
      "demo []" demoAPI]
    processResponse_error_envelope [of "\<lparr>Torrents = None, Error = ''bad request'', ErrorCode = 5\<rparr>"
      "demo []" demoAPI]
  by (simp add: demoAPI_def)

text \<open>
  The claim as written promises an error with the message and the code for every code
  other than 10 and 20. The code 4 is such a code, and its error is the expired-token
  error.
\<close>

theorem processResponse_code4_counterexample:
  "processResponse (demo []) demoAPI \<lparr>Torrents = None, Error = ''token expired'', ErrorCode = 4\<rparr>
     = Inl (expiredTokenError ''expired token'')
   \<and> processResponse (demo []) demoAPI \<lparr>Torrents = None, Error = ''token expired'', ErrorCode = 4\<rparr>
     \<noteq> Inl (APIError (Query demoAPI) ''token expired'' 4)
   \<and> (4 :: go_int) \<noteq> 10 \<and> (4 :: go_int) \<noteq> 20"
  by (simp add: processResponse_def tokenExpiredCode_def)

section \<open>The transport and its rate-limit policy\<close>

lemma sint_pred:
  fixes m :: go_int
  assumes "0 < sint m"
  shows "sint (m - 1) = sint m - 1"
proof -
  have "sint m < 2 ^ 63" using sint_lt [of m] by simp
  with assms have "signed_take_bit 63 (sint m - 1) = sint m - 1"
    by (intro signed_take_bit_int_eq_self) auto
  then show ?thesis
    by (simp add: sint_word_ariths)
qed

lemma loop_stop:
  assumes "NewRequest E q = None" and "transport E (served w) q = Answer resp"
    and "StatusCode resp \<noteq> 429"
  shows "makeRequest_loop E a q m w =
     ((if StatusCode resp = 200 then Inr resp
       else Inl (StatusError (StatusCode resp) (Status resp))),
      w\<lparr>served := served w + 1, events := events w @ [GET q]\<rparr>)"
  using assms by (subst makeRequest_loop.simps) (simp add: Do_def)

lemma loop_again:
  assumes "NewRequest E q = None" and "status_of (transport E (served w) q) = Some 429"
    and "0 <s m - 1"
  shows "makeRequest_loop E a q m w =
     makeRequest_loop E a q (m - 1)
       (Sleep (reqDelay a) (w\<lparr>served := served w + 1, events := events w @ [GET q]\<rparr>))"
proof -
  from assms(2) obtain resp where "transport E (served w) q = Answer resp" "StatusCode resp = 429"
    by (cases "transport E (served w) q") auto
  with assms(1,3) show ?thesis
    by (subst makeRequest_loop.simps) (simp add: Do_def)
qed

lemma loop_exhausted:
  assumes "NewRequest E q = None" and "status_of (transport E (served w) q) = Some 429"
    and "\<not> 0 <s m - 1"
  shows "makeRequest_loop E a q m w =
     (Inl MaxAttemptsError, w\<lparr>served := served w + 1, events := events w @ [GET q]\<rparr>)"
proof -
  from assms(2) obtain resp where "transport E (served w) q = Answer resp" "StatusCode resp = 429"
    by (cases "transport E (served w) q") auto
  with assms(1,3) show ?thesis
    by (subst makeRequest_loop.simps) (simp add: Do_def)
qed

lemma loop_skip:
  assumes "NewRequest E q = None"
    and "\<forall>i<k. status_of (transport E (served w + i) q) = Some 429"
    and "int k < sint m"
  shows "makeRequest_loop E a q m w =
     makeRequest_loop E a q (m - of_nat k) (throttled (reqDelay a) q k w)"
  using assms
proof (induction k arbitrary: m w)
  case 0
  then show ?case by (simp add: throttled_def)
next
  case (Suc k)
  let ?w = "Sleep (reqDelay a) (w\<lparr>served := served w + 1, events := events w @ [GET q]\<rparr>)"
  from Suc.prems(3) have pos: "0 < sint m" by simp
  then have pred: "sint (m - 1) = sint m - 1" by (rule sint_pred)
  with Suc.prems(3) have go: "0 <s m - 1" by (simp add: word_sless_alt)
  from Suc.prems(2) have first: "status_of (transport E (served w) q) = Some 429"
    by (metis add.right_neutral zero_less_Suc)
  have rest: "\<forall>i<k. status_of (transport E (served ?w + i) q) = Some 429"
    using Suc.prems(2) by (auto simp: Sleep_def dest: spec [of _ "Suc i" for i])
  have "makeRequest_loop E a q m w = makeRequest_loop E a q (m - 1) ?w"
    using Suc.prems(1) first go by (rule loop_again)
  also have "\<dots> = makeRequest_loop E a q (m - 1 - of_nat k) (throttled (reqDelay a) q k ?w)"
    using Suc.prems(1) rest Suc.prems(3) pred by (intro Suc.IH) auto
  also have "throttled (reqDelay a) q k ?w = throttled (reqDelay a) q (Suc k) w"
    by (simp add: throttled_def Sleep_def algebra_simps)
  finally show ?case by (simp add: algebra_simps)
qed

lemma sint_sub_nat:
  fixes m :: go_int
  shows "int k < sint m \<Longrightarrow> sint (m - of_nat k) = sint m - int k"
proof (induction k)
  case 0
  then show ?case by simp
next
  case (Suc k)
  then have "sint (m - of_nat k) = sint m - int k" by simp
  moreover from this Suc.prems have "0 < sint (m - of_nat k)" by simp
  then have "sint (m - of_nat k - 1) = sint (m - of_nat k) - 1" by (rule sint_pred)
  ultimately show ?case by (simp add: algebra_simps)
qed

lemma served_throttled: "served (throttled d q k w) = served w + k"
  by (simp add: throttled_def)

text \<open>
  Claim C7. Let the maximum attempt count be positive, let the request be well formed,
  and let the first \<open>k\<close> responses (\<open>k\<close> below the maximum) all be 429. Then
  \<^verbatim>\<open>makeRequest\<close> sleeps after each of them and tries again, and with the next response
  \<^item> of status 200, it returns that response (its body is what the callers decode);
  \<^item> of any status other than 200 and 429, it fails with the error that carries the
    status, and sends nothing more;
  \<^item> of status 429 when this was the last attempt allowed (attempt number
    \<^verbatim>\<open>maxRetries\<close>), it fails with the error of the exhausted attempts.
  In each case it has sent \<open>k + 1\<close> requests, with a sleep of \<^verbatim>\<open>reqDelay\<close> between
  two requests. So 429, 429, 200 succeeds as soon as three attempts are allowed, and
  429 for ever fails after exactly \<^verbatim>\<open>maxRetries\<close> requests (10 by default).
\<close>

theorem makeRequest_policy:
  assumes new: "NewRequest E q = None"
    and limited: "\<forall>i<k. status_of (transport E (served w + i) q) = Some 429"
    and within: "int k < sint (maxRetries a)"
    and answer: "transport E (served w + k) q = Answer resp"
  shows "(StatusCode resp = 200 \<longrightarrow> fst (makeRequest E a q w) = Inr resp)
    \<and> (StatusCode resp \<noteq> 200 \<and> StatusCode resp \<noteq> 429 \<longrightarrow>
         fst (makeRequest E a q w) = Inl (StatusError (StatusCode resp) (Status resp)))
    \<and> (StatusCode resp = 429 \<and> int k + 1 = sint (maxRetries a) \<longrightarrow>
         fst (makeRequest E a q w) = Inl MaxAttemptsError)
    \<and> (StatusCode resp \<noteq> 429 \<or> int k + 1 = sint (maxRetries a) \<longrightarrow>
         served (snd (makeRequest E a q w)) = served w + k + 1
         \<and> events (snd (makeRequest E a q w)) =
             events w @ concat (replicate k [GET q, SLEEP (reqDelay a)]) @ [GET q])"
proof -
  let ?m = "maxRetries a - of_nat k"
  let ?w = "throttled (reqDelay a) q k w"
  have skip: "makeRequest E a q w = makeRequest_loop E a q ?m ?w"
    unfolding makeRequest_def using new limited within by (rule loop_skip)
  have here: "transport E (served ?w) q = Answer resp"
    using answer by (simp add: served_throttled)
  have left: "sint ?m = sint (maxRetries a) - int k"
    using within by (rule sint_sub_nat)
  have final: "?w\<lparr>served := served ?w + 1, events := events ?w @ [GET q]\<rparr>
      = w\<lparr>served := served w + k + 1,
          events := events w @ concat (replicate k [GET q, SLEEP (reqDelay a)]) @ [GET q],
          now := now w + int k * max 0 (reqDelay a)\<rparr>"
    by (simp add: throttled_def)
  show ?thesis
  proof (cases "StatusCode resp = 429")
    case False
    with new here have "makeRequest_loop E a q ?m ?w =
       ((if StatusCode resp = 200 then Inr resp
         else Inl (StatusError (StatusCode resp) (Status resp))),
        ?w\<lparr>served := served ?w + 1, events := events ?w @ [GET q]\<rparr>)"
      by (intro loop_stop)
    with skip final False show ?thesis by simp
  next
    case True
    show ?thesis
    proof (cases "int k + 1 = sint (maxRetries a)")
      case last: True
      with left have "sint ?m = 1" by simp
      then have "0 < sint ?m" by simp
      then have "sint (?m - 1) = sint ?m - 1" by (rule sint_pred)
      with \<open>sint ?m = 1\<close> have stop: "\<not> 0 <s ?m - 1" by (simp add: word_sless_alt)
      from here True have "status_of (transport E (served ?w) q) = Some 429" by simp
      with new have "makeRequest_loop E a q ?m ?w =
         (Inl MaxAttemptsError, ?w\<lparr>served := served ?w + 1, events := events ?w @ [GET q]\<rparr>)"
        using stop by (rule loop_exhausted)
      with skip final True last show ?thesis by simp
    next
      case False
      with True show ?thesis by simp
    qed
  qed
qed

theorem makeRequest_policy_witness:
  "fst (makeRequest (demo [tooMany, tooMany, ok ''empty'']) (demoAPI\<lparr>maxRetries := 3\<rparr>) ''u'' world0)
     = Inr \<lparr>StatusCode = 200, Status = ''200 OK'', Body = ''empty''\<rparr>
   \<and> fst (makeRequest (demo [tooMany, error500, ok ''empty'']) demoAPI ''u'' world0)
     = Inl (StatusError 500 ''500 Internal Server Error'')
   \<and> served (snd (makeRequest (demo [tooMany, error500, ok ''empty'']) demoAPI ''u'' world0)) = 2
   \<and> fst (makeRequest (demo (replicate 12 tooMany)) demoAPI ''u'' world0) = Inl MaxAttemptsError
   \<and> served (snd (makeRequest (demo (replicate 12 tooMany)) demoAPI ''u'' world0)) = 10
   \<and> maxRetries demoAPI = DefaultMaxRetries"
proof -
  have two: "\<forall>i<2. status_of (transport (demo [tooMany, tooMany, ok ''empty'']) (served world0 + i) ''u'')
      = Some 429"
    by (auto simp: demo_def script_def world0_def tooMany_def less_Suc_eq numeral_2_eq_2)
  have one: "\<forall>i<1. status_of (transport (demo [tooMany, error500, ok ''empty'']) (served world0 + i) ''u'')
      = Some 429"
    by (simp add: demo_def script_def world0_def tooMany_def)
  have nine: "\<forall>i<9. status_of (transport (demo (replicate 12 tooMany)) (served world0 + i) ''u'')
      = Some 429"
    by (simp add: demo_def script_def world0_def tooMany_def)
  have "fst (makeRequest (demo [tooMany, tooMany, ok ''empty'']) (demoAPI\<lparr>maxRetries := 3\<rparr>) ''u'' world0)
     = Inr \<lparr>StatusCode = 200, Status = ''200 OK'', Body = ''empty''\<rparr>"
    using makeRequest_policy [where E = "demo [tooMany, tooMany, ok ''empty'']" and q = "''u''"
        and k = 2 and w = world0 and a = "demoAPI\<lparr>maxRetries := 3\<rparr>"
        and resp = "\<lparr>StatusCode = 200, Status = ''200 OK'', Body = ''empty''\<rparr>", OF _ two]
    by (simp add: demo_def script_def world0_def ok_def)
  moreover have "fst (makeRequest (demo [tooMany, error500, ok ''empty'']) demoAPI ''u'' world0)
       = Inl (StatusError 500 ''500 Internal Server Error'')
     \<and> served (snd (makeRequest (demo [tooMany, error500, ok ''empty'']) demoAPI ''u'' world0)) = 2"
    using makeRequest_policy [where E = "demo [tooMany, error500, ok ''empty'']" and q = "''u''"
        and k = 1 and w = world0 and a = demoAPI
        and resp = "\<lparr>StatusCode = 500, Status = ''500 Internal Server Error'', Body = []\<rparr>", OF _ one]
    by (simp add: demo_def script_def world0_def error500_def demoAPI_def DefaultMaxRetries_def)
  moreover have "fst (makeRequest (demo (replicate 12 tooMany)) demoAPI ''u'' world0) = Inl MaxAttemptsError
     \<and> served (snd (makeRequest (demo (replicate 12 tooMany)) demoAPI ''u'' world0)) = 10"
    using makeRequest_policy [where E = "demo (replicate 12 tooMany)" and q = "''u''"
        and k = 9 and w = world0 and a = demoAPI
        and resp = "\<lparr>StatusCode = 429, Status = ''429 Too Many Requests'', Body = []\<rparr>", OF _ nine]
    by (simp add: demo_def script_def world0_def tooMany_def demoAPI_def DefaultMaxRetries_def)
  ultimately show ?thesis
    by (simp add: demoAPI_def)
qed

section \<open>What the transport leaves in the log\<close>

lemma urls_append: "urls (es @ fs) = urls es @ urls fs"
  by (induction es rule: urls.induct) simp_all

lemma loop_failed:
  assumes "NewRequest E q = None" and "transport E (served w) q = Failed e"
  shows "makeRequest_loop E a q m w =
     (Inl (LibraryError e), w\<lparr>served := served w + 1, events := events w @ [GET q]\<rparr>)"
  using assms by (subst makeRequest_loop.simps) (simp add: Do_def)

lemma loop_unbuilt:
  assumes "NewRequest E q = Some e"
  shows "makeRequest_loop E a q m w = (Inl (NewRequestError e), w)"
  using assms by (subst makeRequest_loop.simps) simp

lemma sends_one:
  "NewRequest E q = None \<Longrightarrow>
     sends E q w (w\<lparr>served := served w + 1, events := events w @ [GET q]\<rparr>)"
  by (simp add: sends_def urls_append)

lemma sends_more:
  assumes new: "NewRequest E q = None"
    and rest: "sends E q (Sleep d (w\<lparr>served := served w + 1, events := events w @ [GET q]\<rparr>)) w'"
  shows "sends E q w w'"
proof -
  let ?w = "Sleep d (w\<lparr>served := served w + 1, events := events w @ [GET q]\<rparr>)"
  have s: "served ?w = served w + 1" and e: "events ?w = events w @ [GET q] @ [SLEEP d]"
    by (simp_all add: Sleep_def)
  from rest have le: "served ?w \<le> served w'"
    and u: "urls (events w') = urls (events ?w) @ replicate (served w' - served ?w) q"
    and p: "prefix (events ?w) (events w')"
    by (simp_all add: sends_def)
  from le s have lt: "served w < served w'" by simp
  then have n: "served w' - served w = Suc (served w' - served ?w)" using s by simp
  have "urls (events w') = urls (events w) @ replicate (served w' - served w) q"
    unfolding u e n by (simp add: urls_append)
  moreover from p have "prefix (events w @ [GET q]) (events w')"
    unfolding e by (metis append.assoc append_prefixD)
  moreover from this have "prefix (events w) (events w')"
    by (rule append_prefixD)
  ultimately show ?thesis using new lt by (simp add: sends_def)
qed

lemma loop_sends: "sends E q w (snd (makeRequest_loop E a q m w))"
proof (induction E a q m w rule: makeRequest_loop.induct)
  case (1 E a q m w)
  let ?w1 = "w\<lparr>served := served w + 1, events := events w @ [GET q]\<rparr>"
  show ?case
  proof (cases "NewRequest E q")
    case (Some e)
    then show ?thesis by (simp add: loop_unbuilt sends_def)
  next
    case None
    note one = sends_one [OF None, of w]
    show ?thesis
    proof (cases "transport E (served w) q")
      case (Failed e)
      with None one show ?thesis by (simp add: loop_failed)
    next
      case (Answer resp)
      show ?thesis
      proof (cases "StatusCode resp = 429")
        case False
        with None Answer one show ?thesis by (simp add: loop_stop)
      next
        case True
        with Answer have st: "status_of (transport E (served w) q) = Some 429" by simp
        show ?thesis
        proof (cases "0 <s m - 1")
          case False
          with None st one show ?thesis by (simp add: loop_exhausted)
        next
          case go: True
          have ne: "StatusCode resp \<noteq> 200" using True by simp
          have "sends E q (Sleep (reqDelay a) ?w1)
                  (snd (makeRequest_loop E a q (m - 1) (Sleep (reqDelay a) ?w1)))"
            using None Answer ne True go by (intro "1.IH") (simp_all add: Do_def)
          with None have "sends E q w (snd (makeRequest_loop E a q (m - 1) (Sleep (reqDelay a) ?w1)))"
            by (rule sends_more)
          moreover have "makeRequest_loop E a q m w
              = makeRequest_loop E a q (m - 1) (Sleep (reqDelay a) ?w1)"
            using None st go by (rule loop_again)
          ultimately show ?thesis by simp
        qed
      qed
    qed
  qed
qed

lemma loop_not_expired: "fst (makeRequest_loop E a q m w) \<noteq> Inl (expiredTokenError s)"
proof (induction E a q m w rule: makeRequest_loop.induct)
  case (1 E a q m w)
  show ?case
  proof (cases "NewRequest E q")
    case (Some e)
    then show ?thesis by (simp add: loop_unbuilt)
  next
    case None
    show ?thesis
    proof (cases "transport E (served w) q")
      case (Failed e)
      with None show ?thesis by (simp add: loop_failed)
    next
      case (Answer resp)
      show ?thesis
      proof (cases "StatusCode resp = 429")
        case False
        with None Answer show ?thesis by (simp add: loop_stop)
      next
        case True
        with Answer have st: "status_of (transport E (served w) q) = Some 429" by simp
        show ?thesis
        proof (cases "0 <s m - 1")
          case False
          with None st show ?thesis by (simp add: loop_exhausted)
        next
          case go: True
          have ne: "StatusCode resp \<noteq> 200" using True by simp
          let ?w = "Sleep (reqDelay a) (w\<lparr>served := served w + 1, events := events w @ [GET q]\<rparr>)"
          have "fst (makeRequest_loop E a q (m - 1) ?w) \<noteq> Inl (expiredTokenError s)"
            using None Answer ne True go by (intro "1.IH") (simp_all add: Do_def)
          moreover have "makeRequest_loop E a q m w = makeRequest_loop E a q (m - 1) ?w"
            using None st go by (rule loop_again)
          ultimately show ?thesis by simp
        qed
      qed
    qed
  qed
qed

section \<open>The call controller\<close>

lemma getResults_sends: "sends E q w (snd (getResults E a q w))"
proof -
  have "snd (getResults E a q w) = snd (makeRequest_loop E a q (maxRetries a) w)"
    by (simp add: getResults_def makeRequest_def split: prod.split sum.split)
  then show ?thesis by (simp add: loop_sends)
qed

lemma getResults_not_expired: "fst (getResults E a q w) \<noteq> Inl (expiredTokenError s)"
  using loop_not_expired [of E a q "maxRetries a" w s]
  by (auto simp: getResults_def makeRequest_def split: prod.split sum.split)

lemma getResults_built:
  assumes "getResults E a q w = (Inr r, w')"
  shows "NewRequest E q = None"
proof (cases "NewRequest E q")
  case (Some e)
  with assms show ?thesis
    by (simp add: getResults_def makeRequest_def loop_unbuilt)
qed simp

lemma renewToken_sends: "sends E (tokenURL a) w (snd (renewToken E a w))"
proof -
  have "snd (renewToken E a w) = snd (makeRequest_loop E a (tokenURL a) (maxRetries a) w)"
    by (simp add: renewToken_def makeRequest_def split: prod.split sum.split option.split)
  then show ?thesis by (simp add: loop_sends)
qed

lemma renewToken_not_expired: "snd (fst (renewToken E a w)) \<noteq> Some (expiredTokenError s)"
  using loop_not_expired [of E a "tokenURL a" "maxRetries a" w s]
  by (auto simp: renewToken_def makeRequest_def split: prod.split sum.split option.split)

lemma assignToken_world: "sends E (tokenURL a) w (snd (snd (assignToken E a w)))"
  using renewToken_sends [of E a w] by (auto simp: assignToken_def split: prod.split)

lemma assignToken_not_expired: "fst (assignToken E a w) \<noteq> Some (expiredTokenError s)"
  using renewToken_not_expired [of E a w s] by (auto simp: assignToken_def split: prod.split)

lemma ensureToken_not_expired: "fst (ensureToken E a w) \<noteq> Some (expiredTokenError s)"
  by (simp add: ensureToken_def assignToken_not_expired)

lemma processResponse_expired_iff:
  "processResponse E a r = Inl (expiredTokenError s) \<longleftrightarrow>
     s = ''expired token'' \<and> Torrents r = None \<and> Error r \<noteq> [] \<and> ErrorCode r = 4"
  by (auto simp: processResponse_def tokenExpiredCode_def imdbNotFound_def noResultsCode_def Let_def
      split: option.splits sum.splits if_splits)

text \<open>The paths through the body of \<^verbatim>\<open>call\<close>, with every intermediate result named.\<close>

lemma call_body_paths:
  assumes "ensureToken E a w = (e0, a0, w0)"
    and "a1 = addCategories a0" and "q = assemble a1"
    and "getResults E a1 q w0 = (g1, w1)"
    and "assignToken E a1 w1 = (e2, a2, w2)"
    and "getResults E a2 q w2 = (g2, w3)"
  shows "call_body E a w =
     (case e0 of
        Some err \<Rightarrow> (Inl err, a0, w0)
      | None \<Rightarrow>
          (case g1 of
             Inl err \<Rightarrow> (Inl err, a1, w1)
           | Inr r1 \<Rightarrow>
               (case processResponse E a1 r1 of
                  Inr data \<Rightarrow> (Inr data, a1, w1)
                | Inl err \<Rightarrow>
                    (case err of
                       expiredTokenError s \<Rightarrow>
                         (case e2 of
                            Some err2 \<Rightarrow> (Inl err2, a2, w2)
                          | None \<Rightarrow>
                              (case g2 of
                                 Inl err3 \<Rightarrow> (Inl err3, a2, w3)
                               | Inr r2 \<Rightarrow> (processResponse E a2 r2, a2, w3)))
                     | _ \<Rightarrow> (Inl err, a1, w1)))))"
  using assms
  by (simp add: call_body_def call_request_def call_retry_def Let_def
      split: option.split sum.split error.split)

lemma call_proj:
  "call E a w =
     (fst (call_body E a w), initQuery (fst (snd (call_body E a w))), snd (snd (call_body E a w)))"
  by (simp add: call_def split_beta)

lemma call_body_first_error:
  assumes "ensureToken E a w = (e0, a0, w0)"
    and "a1 = addCategories a0" and "q = assemble a1"
    and "getResults E a1 q w0 = (g1, w1)"
    and "assignToken E a1 w1 = (e2, a2, w2)"
    and "getResults E a2 q w2 = (g2, w3)"
    and "e0 = None" and "g1 = Inr r1" and "processResponse E a1 r1 = Inl err"
  shows "call_body E a w =
     (if \<exists>s. err = expiredTokenError s then
        (case e2 of
           Some err2 \<Rightarrow> (Inl err2, a2, w2)
         | None \<Rightarrow>
             (case g2 of
                Inl err3 \<Rightarrow> (Inl err3, a2, w3)
              | Inr r2 \<Rightarrow> (processResponse E a2 r2, a2, w3)))
      else (Inl err, a1, w1))"
  unfolding call_body_paths [OF assms(1-6)] using assms(7-9)
  by (cases err) simp_all

text \<open>
  Claim C1. Name the steps a call can take: \<open>(e0, a0, w0)\<close> is what the token check
  leaves, \<open>q\<close> the request string assembled from it, \<open>(g1, w1)\<close> the first request and
  its decoding, \<open>(e2, a2, w2)\<close> a renewal after it, \<open>(g2, w3)\<close> a second request after
  that. Every call ends in one of the worlds \<open>w0\<close>, \<open>w1\<close>, \<open>w2\<close>, \<open>w3\<close>: there is
  no third request, whatever the server answers. When the first envelope carries the
  error code 4, the renewal succeeds and the second request gives an envelope, the call
  returns what \<^verbatim>\<open>processResponse\<close> makes of that second envelope and ends in \<open>w3\<close>; when
  the second envelope carries the code 4 again, that is the expired-token error.
\<close>

theorem call_retries_once:
  assumes "ensureToken E a w = (e0, a0, w0)"
    and "a1 = addCategories a0" and "q = assemble a1"
    and "getResults E a1 q w0 = (g1, w1)"
    and "assignToken E a1 w1 = (e2, a2, w2)"
    and "getResults E a2 q w2 = (g2, w3)"
  shows "snd (snd (call E a w)) \<in> {w0, w1, w2, w3}
    \<and> (e0 = None \<and> g1 = Inr r1 \<and> Torrents r1 = None \<and> Error r1 \<noteq> [] \<and> ErrorCode r1 = 4
         \<and> e2 = None \<and> g2 = Inr r2
       \<longrightarrow> call E a w = (processResponse E a2 r2, initQuery a2, w3))
    \<and> (e0 = None \<and> g1 = Inr r1 \<and> Torrents r1 = None \<and> Error r1 \<noteq> [] \<and> ErrorCode r1 = 4
         \<and> e2 = None \<and> g2 = Inr r2 \<and> Torrents r2 = None \<and> Error r2 \<noteq> [] \<and> ErrorCode r2 = 4
       \<longrightarrow> call E a w = (Inl (expiredTokenError ''expired token''), initQuery a2, w3))"
proof -
  note paths = call_body_paths [OF assms]
  have "snd (snd (call_body E a w)) \<in> {w0, w1, w2, w3}"
    unfolding paths by (simp split: option.split sum.split error.split)
  then have world: "snd (snd (call E a w)) \<in> {w0, w1, w2, w3}"
    by (simp add: call_proj)
  have retry: "call E a w = (processResponse E a2 r2, initQuery a2, w3)"
    if "e0 = None" "g1 = Inr r1" "Torrents r1 = None" "Error r1 \<noteq> []" "ErrorCode r1 = 4"
      "e2 = None" "g2 = Inr r2"
  proof -
    from that have "processResponse E a1 r1 = Inl (expiredTokenError ''expired token'')"
      by (simp add: processResponse_expired_iff)
    with that have "call_body E a w = (processResponse E a2 r2, a2, w3)"
      unfolding paths by simp
    then show ?thesis by (simp add: call_proj)
  qed
  have again: "processResponse E a2 r2 = Inl (expiredTokenError ''expired token'')"
    if "Torrents r2 = None" "Error r2 \<noteq> []" "ErrorCode r2 = 4"
    using that by (simp add: processResponse_expired_iff)
  from world retry again show ?thesis by simp
qed

theorem call_retries_once_witness:
  "fst (call twiceExpired demoAPI world0) = Inl (expiredTokenError ''expired token'')
   \<and> served (snd (snd (call twiceExpired demoAPI world0))) = 3"
proof -
  let ?r = "\<lparr>Torrents = None, Error = ''token expired'', ErrorCode = 4\<rparr>"
  let ?q = "assemble (addCategories demoAPI)"
  let ?g1 = "getResults twiceExpired (addCategories demoAPI) ?q world0"
  let ?t = "assignToken twiceExpired (addCategories demoAPI) (snd ?g1)"
  let ?g2 = "getResults twiceExpired (fst (snd ?t)) ?q (snd (snd ?t))"
  have p1: "ensureToken twiceExpired demoAPI world0 = (None, demoAPI, world0)"
    by code_simp
  have p4: "?g1 = (Inr ?r, snd ?g1)"
    by code_simp
  have p5: "?t = (None, fst (snd ?t), snd (snd ?t))"
    by code_simp
  have p6: "?g2 = (Inr ?r, snd ?g2)"
    by code_simp
  have "served (snd ?g2) = 3"
    by code_simp
  with call_retries_once [OF p1 refl refl p4 p5 p6, where ?r1.0 = ?r and ?r2.0 = ?r]
  show ?thesis by (simp add: processResponse_def tokenExpiredCode_def)
qed


text \<open>
  Claim C3, as the code has it: with the steps named as above, \<^verbatim>\<open>call\<close> returns an
  expired-token error exactly when the first envelope carried the error code 4, the
  renewal succeeded, and the envelope of the second request carried the code 4 again.
  The error of the first interpretation is never returned, and neither the renewal
  nor the transport can make this error; the one of the second interpretation is
  returned as it is.
\<close>

theorem expired_only_from_retry:
  assumes "ensureToken E a w = (e0, a0, w0)"
    and "a1 = addCategories a0" and "q = assemble a1"
    and "getResults E a1 q w0 = (g1, w1)"
    and "assignToken E a1 w1 = (e2, a2, w2)"
    and "getResults E a2 q w2 = (g2, w3)"
  shows "fst (call E a w) = Inl (expiredTokenError s) \<longleftrightarrow>
     s = ''expired token'' \<and> e0 = None
     \<and> (\<exists>r1. g1 = Inr r1 \<and> Torrents r1 = None \<and> Error r1 \<noteq> [] \<and> ErrorCode r1 = 4)
     \<and> e2 = None
     \<and> (\<exists>r2. g2 = Inr r2 \<and> Torrents r2 = None \<and> Error r2 \<noteq> [] \<and> ErrorCode r2 = 4)"
    (is "?lhs \<longleftrightarrow> ?rhs")
proof -
  note paths = call_body_paths [OF assms]
  note first = call_body_first_error [OF assms]
  have e0: "e0 \<noteq> Some (expiredTokenError s)"
    using ensureToken_not_expired [of E a w s] assms(1) by simp
  have g1: "g1 \<noteq> Inl (expiredTokenError s)"
    using getResults_not_expired [of E a1 q w0 s] assms(4) by simp
  have e2: "e2 \<noteq> Some (expiredTokenError s)"
    using assignToken_not_expired [of E a1 w1 s] assms(5) by simp
  have g2: "g2 \<noteq> Inl (expiredTokenError s)"
    using getResults_not_expired [of E a2 q w2 s] assms(6) by simp
  have call: "fst (call E a w) = fst (call_body E a w)"
    by (simp add: call_proj)
  show ?thesis
  proof
    assume ?rhs
    then obtain r1 r2 where s: "s = ''expired token''" and "e0 = None" "g1 = Inr r1"
      and "processResponse E a1 r1 = Inl (expiredTokenError ''expired token'')"
      and "e2 = None" "g2 = Inr r2"
      and "processResponse E a2 r2 = Inl (expiredTokenError ''expired token'')"
      by (auto simp: processResponse_expired_iff)
    then show ?lhs
      unfolding call by (simp add: first)
  next
    assume l: ?lhs
    with e0 have n0: "e0 = None"
      unfolding call paths by (cases e0) simp_all
    from l n0 g1 obtain r1 where r1: "g1 = Inr r1"
      unfolding call paths by (cases g1) simp_all
    from l n0 r1 obtain err where err: "processResponse E a1 r1 = Inl err"
      unfolding call paths by (cases "processResponse E a1 r1") simp_all
    note here = first [OF n0 r1 err]
    have ex: "\<exists>s'. err = expiredTokenError s'"
    proof (rule ccontr)
      assume no: "\<not> (\<exists>s'. err = expiredTokenError s')"
      with l have "err = expiredTokenError s"
        unfolding call here by simp
      with no show False by simp
    qed
    with err have c1: "Torrents r1 = None \<and> Error r1 \<noteq> [] \<and> ErrorCode r1 = 4"
      by (auto simp: processResponse_expired_iff)
    from l ex e2 have n2: "e2 = None"
      unfolding call here by (cases e2) simp_all
    from l ex n2 g2 obtain r2 where r2: "g2 = Inr r2"
      unfolding call here by (cases g2) simp_all
    from l ex n2 r2 have "processResponse E a2 r2 = Inl (expiredTokenError s)"
      unfolding call here by simp
    then have "s = ''expired token'' \<and> Torrents r2 = None \<and> Error r2 \<noteq> [] \<and> ErrorCode r2 = 4"
      by (simp add: processResponse_expired_iff)
    with n0 r1 c1 n2 r2 show ?rhs by simp
  qed
qed
theorem expired_only_from_retry_witness:
  "fst (call twiceExpired demoAPI world0) = Inl (expiredTokenError ''expired token'')
   \<and> fst (call (demo [ok ''expired'', ok ''tok'', ok ''noresults'']) demoAPI world0)
       \<noteq> Inl (expiredTokenError ''expired token'')"
proof -
  let ?r = "\<lparr>Torrents = None, Error = ''token expired'', ErrorCode = 4\<rparr>"
  let ?q = "assemble (addCategories demoAPI)"
  let ?g1 = "getResults twiceExpired (addCategories demoAPI) ?q world0"
  let ?t = "assignToken twiceExpired (addCategories demoAPI) (snd ?g1)"
  let ?g2 = "getResults twiceExpired (fst (snd ?t)) ?q (snd (snd ?t))"
  have p1: "ensureToken twiceExpired demoAPI world0 = (None, demoAPI, world0)"
    by code_simp
  have p4: "?g1 = (Inr ?r, snd ?g1)"
    by code_simp
  have p5: "?t = (None, fst (snd ?t), snd (snd ?t))"
    by code_simp
  have p6: "?g2 = (Inr ?r, snd ?g2)"
    by code_simp
  let ?E = "demo [ok ''expired'', ok ''tok'', ok ''noresults'']"
  let ?h1 = "getResults ?E (addCategories demoAPI) ?q world0"
  let ?u = "assignToken ?E (addCategories demoAPI) (snd ?h1)"
  let ?h2 = "getResults ?E (fst (snd ?u)) ?q (snd (snd ?u))"
  have q1: "ensureToken ?E demoAPI world0 = (None, demoAPI, world0)"
    by code_simp
  have q4: "?h1 = (Inr ?r, snd ?h1)"
    by code_simp
  have q5: "?u = (None, fst (snd ?u), snd (snd ?u))"
    by code_simp
  have q6: "?h2 = (Inr \<lparr>Torrents = None, Error = ''no results'', ErrorCode = 20\<rparr>, snd ?h2)"
    by code_simp
  from expired_only_from_retry [OF p1 refl refl p4 p5 p6, of "''expired token''"]
    expired_only_from_retry [OF q1 refl refl q4 q5 q6, of "''expired token''"]
  show ?thesis by simp
qed

text \<open>
  The claim as written says that \<^verbatim>\<open>call\<close> never returns the expired-token error. With
  a server that reports an expired token before and after the renewal, it does.
\<close>

theorem expired_surfaces_counterexample:
  "fst (call twiceExpired demoAPI world0) = Inl (expiredTokenError ''expired token'')"
  by code_simp


section \<open>The request of the retry\<close>

lemma sends_served: "sends E q w w' \<Longrightarrow> NewRequest E q = None \<Longrightarrow> served w < served w'"
  by (simp add: sends_def)

lemma sends_urls:
  "sends E q w w' \<Longrightarrow> urls (events w') = urls (events w) @ replicate (served w' - served w) q"
  by (simp add: sends_def)

text \<open>
  Claim C4. On the retry path (a token in hand, a first envelope with the error code
  4, a renewal that succeeds) the call ends with the second \<^verbatim>\<open>getResults\<close>, which is
  given the string \<open>q\<close> assembled before the first request. The log shows it: the
  requests of the call are one or more for \<open>q\<close>, then those of the renewal for the
  token URL, then one or more for the same \<open>q\<close>, character for character. The string
  still carries the credential the receiver held before the renewal.
\<close>

theorem retry_sends_same_request:
  assumes "ensureToken E a w = (None, a0, w0)"
    and "a1 = addCategories a0" and "q = assemble a1"
    and "getResults E a1 q w0 = (Inr r1, w1)"
    and "Torrents r1 = None" and "Error r1 \<noteq> []" and "ErrorCode r1 = 4"
    and "assignToken E a1 w1 = (None, a2, w2)"
    and "getResults E a2 q w2 = (g2, w3)"
  shows "snd (snd (call E a w)) = w3
    \<and> urls (events w3) =
        urls (events w0) @ replicate (served w1 - served w0) q
          @ replicate (served w2 - served w1) (tokenURL a1)
          @ replicate (served w3 - served w2) q
    \<and> served w0 < served w1 \<and> served w2 < served w3
    \<and> q = url a0 @ ''&token='' @ Token (APIToken a0) @ Query a1 @ ''&app_id='' @ appID a0"
proof -
  have first: "processResponse E a1 r1 = Inl (expiredTokenError ''expired token'')"
    using assms(5-7) by (simp add: processResponse_expired_iff)
  have "call_body E a w =
      (case g2 of Inl err3 \<Rightarrow> (Inl err3, a2, w3) | Inr r2 \<Rightarrow> (processResponse E a2 r2, a2, w3))"
    using call_body_first_error [OF assms(1-4) assms(8,9) refl refl first] by simp
  then have world: "snd (snd (call E a w)) = w3"
    by (simp add: call_proj split: sum.split)
  have new: "NewRequest E q = None"
    using assms(4) by (rule getResults_built)
  have s1: "sends E q w0 w1"
    using getResults_sends [of E q w0 a1] assms(4) by simp
  have s2: "sends E (tokenURL a1) w1 w2"
    using assignToken_world [of E a1 w1] assms(8) by simp
  have s3: "sends E q w2 w3"
    using getResults_sends [of E q w2 a2] assms(9) by simp
  have "urls (events w3) =
        urls (events w0) @ replicate (served w1 - served w0) q
          @ replicate (served w2 - served w1) (tokenURL a1)
          @ replicate (served w3 - served w2) q"
    by (simp add: sends_urls [OF s3] sends_urls [OF s2] sends_urls [OF s1])
  moreover have "q = url a0 @ ''&token='' @ Token (APIToken a0) @ Query a1 @ ''&app_id='' @ appID a0"
    using assms(2,3) by (simp add: assemble_def addCategories_def)
  ultimately show ?thesis
    using world sends_served [OF s1 new] sends_served [OF s3 new] by simp
qed

theorem retry_sends_same_request_witness:
  "urls (events (snd (snd (call expiredOnce demoAPI world0)))) =
     [''https://torrentapi.org/pubapi_v2.php?&token=some_token&app_id=test'',
      ''https://torrentapi.org/pubapi_v2.php?get_token=get_token&app_id=test'',
      ''https://torrentapi.org/pubapi_v2.php?&token=some_token&app_id=test'',
      ''https://torrentapi.org/pubapi_v2.php?&token=some_token&app_id=test'']"
proof -
  let ?r = "\<lparr>Torrents = None, Error = ''token expired'', ErrorCode = 4\<rparr>"
  let ?q = "assemble (addCategories demoAPI)"
  let ?g1 = "getResults expiredOnce (addCategories demoAPI) ?q world0"
  let ?t = "assignToken expiredOnce (addCategories demoAPI) (snd ?g1)"
  let ?g2 = "getResults expiredOnce (fst (snd ?t)) ?q (snd (snd ?t))"
  have p1: "ensureToken expiredOnce demoAPI world0 = (None, demoAPI, world0)"
    by code_simp
  have p4: "?g1 = (Inr ?r, snd ?g1)"
    by code_simp
  have p5: "?t = (None, fst (snd ?t), snd (snd ?t))"
    by code_simp
  have p6: "?g2 = (fst ?g2, snd ?g2)"
    by simp
  have served: "served world0 = 0" "served (snd ?g1) = 1" "served (snd (snd ?t)) = 2"
    "served (snd ?g2) = 4"
    by code_simp+
  have strings:
    "?q = ''https://torrentapi.org/pubapi_v2.php?&token=some_token&app_id=test''"
    "tokenURL (addCategories demoAPI)
       = ''https://torrentapi.org/pubapi_v2.php?get_token=get_token&app_id=test''"
    by code_simp+
  have start: "urls (events world0) = []"
    by (simp add: world0_def)
  have c: "Torrents ?r = None" "Error ?r \<noteq> []" "ErrorCode ?r = 4"
    by simp_all
  note sent = retry_sends_same_request [OF p1 refl refl p4 c p5 p6]
  from sent have "snd (snd (call expiredOnce demoAPI world0)) = snd ?g2"
    by (rule conjunct1)
  moreover from sent have "urls (events (snd ?g2)) =
        urls (events world0) @ replicate (served (snd ?g1) - served world0) ?q
          @ replicate (served (snd (snd ?t)) - served (snd ?g1)) (tokenURL (addCategories demoAPI))
          @ replicate (served (snd ?g2) - served (snd (snd ?t))) ?q"
    by (rule conjunct2 [THEN conjunct1])
  ultimately have "urls (events (snd (snd (call expiredOnce demoAPI world0)))) =
        urls (events world0) @ replicate (served (snd ?g1) - served world0) ?q
          @ replicate (served (snd (snd ?t)) - served (snd ?g1)) (tokenURL (addCategories demoAPI))
          @ replicate (served (snd ?g2) - served (snd (snd ?t))) ?q"
    by (simp only:)
  then have "urls (events (snd (snd (call expiredOnce demoAPI world0)))) =
        [] @ replicate (1 - 0) ?q @ replicate (2 - 1) (tokenURL (addCategories demoAPI))
          @ replicate (4 - 2) ?q"
    unfolding served start .
  then show ?thesis
    unfolding strings by (simp add: numeral_2_eq_2)
qed

section \<open>Empty results and nil results\<close>

text \<open>
  Claim C10, as the code has it. With a token in hand and an envelope \<open>r\<close> from the
  first request: when the payload is present and \<^verbatim>\<open>json.Unmarshal\<close> returns no error,
  \<^verbatim>\<open>call\<close> returns, with no error, the very slice \<^verbatim>\<open>json.Unmarshal\<close> left in \<^verbatim>\<open>data\<close>,
  nil or not; when there is no payload and the error code is 10 or 20 (with an error
  text), it returns nil and no error. So a present payload gives the result of the
  benign codes exactly when the decoder left the slice nil: the result of a payload
  that decodes to no torrent is told from that of a benign code when the decoder left
  an empty slice, and not when it left nil.
\<close>

theorem payload_and_benign_results:
  assumes "ensureToken E a w = (None, a0, w0)"
    and "a1 = addCategories a0" and "q = assemble a1"
    and "getResults E a1 q w0 = (Inr r, w1)"
  shows "(Torrents r = Some p \<and> Unmarshal E p = Inr data
          \<longrightarrow> call E a w = (Inr data, initQuery a1, w1))
    \<and> (Torrents r = None \<and> Error r \<noteq> [] \<and> (ErrorCode r = 10 \<or> ErrorCode r = 20)
          \<longrightarrow> call E a w = (Inr None, initQuery a1, w1))
    \<and> (Torrents r = Some p \<and> Unmarshal E p = Inr data
          \<longrightarrow> (fst (call E a w) = Inr None) = (data = None))"
proof -
  let ?t = "assignToken E a1 w1"
  let ?g = "getResults E (fst (snd ?t)) q (snd (snd ?t))"
  have t: "?t = (fst ?t, fst (snd ?t), snd (snd ?t))" and g: "?g = (fst ?g, snd ?g)"
    by simp_all
  note paths = call_body_paths [OF assms t g]
  have payload: "call E a w = (Inr data, initQuery a1, w1)"
    if "Torrents r = Some p" "Unmarshal E p = Inr data"
  proof -
    from that have "processResponse E a1 r = Inr data"
      by (simp add: processResponse_def)
    then show ?thesis by (simp add: call_proj paths)
  qed
  have benign: "call E a w = (Inr None, initQuery a1, w1)"
    if "Torrents r = None" "Error r \<noteq> []" "ErrorCode r = 10 \<or> ErrorCode r = 20"
  proof -
    from that have "processResponse E a1 r = Inr None"
      by (auto simp: processResponse_def tokenExpiredCode_def imdbNotFound_def noResultsCode_def)
    then show ?thesis by (simp add: call_proj paths)
  qed
  have told: "(fst (call E a w) = Inr None) = (data = None)"
    if "Torrents r = Some p" "Unmarshal E p = Inr data"
    using payload [OF that] by simp
  from payload benign told show ?thesis by simp
qed

theorem payload_and_benign_results_witness:
  "fst (call (demo [ok ''empty'']) demoAPI world0) = Inr (Some [])
   \<and> fst (call nullPayload demoAPI world0) = Inr None
   \<and> fst (call (demo [ok ''noresults'']) demoAPI world0) = Inr None"
proof -
  let ?q = "assemble (addCategories demoAPI)"
  let ?g = "getResults (demo [ok ''empty'']) (addCategories demoAPI) ?q world0"
  let ?n = "getResults nullPayload (addCategories demoAPI) ?q world0"
  let ?h = "getResults (demo [ok ''noresults'']) (addCategories demoAPI) ?q world0"
  have p1: "ensureToken (demo [ok ''empty'']) demoAPI world0 = (None, demoAPI, world0)"
    by code_simp
  have p4: "?g = (Inr \<lparr>Torrents = Some ''[]'', Error = [], ErrorCode = 0\<rparr>, snd ?g)"
    by code_simp
  have n1: "ensureToken nullPayload demoAPI world0 = (None, demoAPI, world0)"
    by code_simp
  have n4: "?n = (Inr \<lparr>Torrents = Some ''null'', Error = [], ErrorCode = 0\<rparr>, snd ?n)"
    by code_simp
  have q1: "ensureToken (demo [ok ''noresults'']) demoAPI world0 = (None, demoAPI, world0)"
    by code_simp
  have q4: "?h = (Inr \<lparr>Torrents = None, Error = ''no results'', ErrorCode = 20\<rparr>, snd ?h)"
    by code_simp
  have u: "Unmarshal (demo [ok ''empty'']) ''[]'' = Inr (Some [])"
    and v: "Unmarshal nullPayload ''null'' = Inr None"
    by code_simp+
  from payload_and_benign_results [OF p1 refl refl p4, of "''[]''" "Some []"]
    payload_and_benign_results [OF n1 refl refl n4, of "''null''" None]
    payload_and_benign_results [OF q1 refl refl q4] u v
  show ?thesis by simp
qed

text \<open>
  The claim as written says that a present payload which decodes to no torrent gives a
  slice that is not nil, unlike the benign codes. The payload \<open>null\<close> is present, it
  decodes without error to no torrent, and \<^verbatim>\<open>call\<close> returns nil and no error, as it does
  for the code 20.
\<close>

theorem null_payload_counterexample:
  "fst (getResults nullPayload (addCategories demoAPI) (assemble (addCategories demoAPI)) world0)
     = Inr \<lparr>Torrents = Some ''null'', Error = [], ErrorCode = 0\<rparr>
   \<and> Unmarshal nullPayload ''null'' = Inr None
   \<and> fst (call nullPayload demoAPI world0) = Inr None
   \<and> fst (call nullPayload demoAPI world0) = fst (call (demo [ok ''noresults'']) demoAPI world0)"
  by code_simp

section \<open>The stored token after a failed renewal\<close>

lemma assignToken_failed:
  assumes "assignToken E a w = (Some err, a', w')"
  shows "Expires (APIToken a') = 0
    \<and> (case fst (makeRequest E a (tokenURL a) w) of
          Inl e \<Rightarrow> APIToken a' = zeroToken
        | Inr resp \<Rightarrow> Token (APIToken a') = fst (DecodeToken E (Body resp)))"
  using assms
  by (auto simp: assignToken_def renewToken_def zeroToken_def
      split: prod.splits sum.splits option.splits)

text \<open>
  Claim C9, as the code has it. When the renewal fails, at the entry of \<^verbatim>\<open>call\<close> (the
  stored token was not valid) or on the retry path, \<^verbatim>\<open>call\<close> returns the error of the
  renewal and the receiver holds the token \<^verbatim>\<open>renewToken\<close> returned beside the error: its
  expiry is the zero instant; it is the zero token when the request for the token
  failed, and when the response arrived but did not decode, its credential is what the
  decoder left in it. The deferred reset does not touch the token.
\<close>

theorem failed_renewal_overwrites_token:
  assumes "ensureToken E a w = (e0, a0, w0)"
    and "a1 = addCategories a0" and "q = assemble a1"
    and "getResults E a1 q w0 = (g1, w1)"
    and "assignToken E a1 w1 = (e2, a2, w2)"
  shows "(e0 = Some err \<longrightarrow>
            call E a w = (Inl err, initQuery a0, w0)
          \<and> \<not> IsValid (now w) (APIToken a)
          \<and> Expires (APIToken a0) = 0
          \<and> (case fst (makeRequest E a (tokenURL a) w) of
                Inl e \<Rightarrow> APIToken a0 = zeroToken
              | Inr resp \<Rightarrow> Token (APIToken a0) = fst (DecodeToken E (Body resp))))
    \<and> (e0 = None \<and> g1 = Inr r1 \<and> Torrents r1 = None \<and> Error r1 \<noteq> [] \<and> ErrorCode r1 = 4
          \<and> e2 = Some err \<longrightarrow>
            call E a w = (Inl err, initQuery a2, w2)
          \<and> Expires (APIToken a2) = 0
          \<and> (case fst (makeRequest E a1 (tokenURL a1) w1) of
                Inl e \<Rightarrow> APIToken a2 = zeroToken
              | Inr resp \<Rightarrow> Token (APIToken a2) = fst (DecodeToken E (Body resp))))
    \<and> APIToken (initQuery a0) = APIToken a0 \<and> APIToken (initQuery a2) = APIToken a2"
proof -
  let ?g = "getResults E a2 q w2"
  have g: "?g = (fst ?g, snd ?g)"
    by simp
  note paths = call_body_paths [OF assms g]
  have entry: "call E a w = (Inl err, initQuery a0, w0)
      \<and> \<not> IsValid (now w) (APIToken a)
      \<and> Expires (APIToken a0) = 0
      \<and> (case fst (makeRequest E a (tokenURL a) w) of
            Inl e \<Rightarrow> APIToken a0 = zeroToken
          | Inr resp \<Rightarrow> Token (APIToken a0) = fst (DecodeToken E (Body resp)))"
    if e0: "e0 = Some err"
  proof -
    from assms(1) e0 have invalid: "\<not> IsValid (now w) (APIToken a)"
      by (auto simp: ensureToken_def split: if_splits)
    with assms(1) e0 have "assignToken E a w = (Some err, a0, w0)"
      by (simp add: ensureToken_def)
    from assignToken_failed [OF this] invalid e0 show ?thesis
      by (simp add: call_proj paths)
  qed
  have retry: "call E a w = (Inl err, initQuery a2, w2)
      \<and> Expires (APIToken a2) = 0
      \<and> (case fst (makeRequest E a1 (tokenURL a1) w1) of
            Inl e \<Rightarrow> APIToken a2 = zeroToken
          | Inr resp \<Rightarrow> Token (APIToken a2) = fst (DecodeToken E (Body resp)))"
    if "e0 = None" "g1 = Inr r1" "Torrents r1 = None" "Error r1 \<noteq> []" "ErrorCode r1 = 4"
      and e2: "e2 = Some err"
  proof -
    from that have "processResponse E a1 r1 = Inl (expiredTokenError ''expired token'')"
      by (simp add: processResponse_expired_iff)
    with that have "call_body E a w = (Inl err, a2, w2)"
      unfolding paths by simp
    moreover from assms(5) e2 have "assignToken E a1 w1 = (Some err, a2, w2)"
      by simp
    note assignToken_failed [OF this]
    ultimately show ?thesis
      by (simp add: call_proj)
  qed
  from entry retry show ?thesis
    by (simp add: initQuery_def)
qed


theorem failed_renewal_overwrites_token_witness:
  "fst (call (demo [error500]) (demoAPI\<lparr>APIToken := \<lparr>Token = ''old'', Expires = 50\<rparr>\<rparr>) world0)
     = Inl (StatusError 500 ''500 Internal Server Error'')
   \<and> APIToken (fst (snd (call (demo [error500])
         (demoAPI\<lparr>APIToken := \<lparr>Token = ''old'', Expires = 50\<rparr>\<rparr>) world0))) = zeroToken
   \<and> fst (call (demo [ok ''expired'', error500]) demoAPI world0)
     = Inl (StatusError 500 ''500 Internal Server Error'')
   \<and> APIToken (fst (snd (call (demo [ok ''expired'', error500]) demoAPI world0))) = zeroToken"
proof -
  let ?err = "StatusError 500 ''500 Internal Server Error''"
  let ?a = "demoAPI\<lparr>APIToken := \<lparr>Token = ''old'', Expires = 50\<rparr>\<rparr>"
  let ?E = "demo [error500]"
  let ?e = "ensureToken ?E ?a world0"
  let ?g = "getResults ?E (addCategories (fst (snd ?e))) (assemble (addCategories (fst (snd ?e))))
      (snd (snd ?e))"
  let ?t = "assignToken ?E (addCategories (fst (snd ?e))) (snd ?g)"
  have p1: "?e = (Some ?err, fst (snd ?e), snd (snd ?e))"
    by code_simp
  have p4: "?g = (fst ?g, snd ?g)" and p5: "?t = (fst ?t, fst (snd ?t), snd (snd ?t))"
    by simp_all
  have m: "fst (makeRequest ?E ?a (tokenURL ?a) world0) = Inl ?err"
    by code_simp
  let ?F = "demo [ok ''expired'', error500]"
  let ?r = "\<lparr>Torrents = None, Error = ''token expired'', ErrorCode = 4\<rparr>"
  let ?h = "getResults ?F (addCategories demoAPI) (assemble (addCategories demoAPI)) world0"
  let ?u = "assignToken ?F (addCategories demoAPI) (snd ?h)"
  have q1: "ensureToken ?F demoAPI world0 = (None, demoAPI, world0)"
    by code_simp
  have q4: "?h = (Inr ?r, snd ?h)"
    by code_simp
  have q5: "?u = (Some ?err, fst (snd ?u), snd (snd ?u))"
    by code_simp
  have n: "fst (makeRequest ?F (addCategories demoAPI) (tokenURL (addCategories demoAPI)) (snd ?h))
      = Inl ?err"
    by code_simp
  from failed_renewal_overwrites_token [OF p1 refl refl p4 p5, where err = ?err]
    failed_renewal_overwrites_token [OF q1 refl refl q4 q5, where err = ?err and ?r1.0 = ?r] m n
  show ?thesis by simp
qed

text \<open>
  The claim as written says that the stored token is then the zero token. A decoder
  of \<^verbatim>\<open>encoding/json\<close> that meets a value of the wrong type keeps the fields it has
  stored and reports the type error at the end, so the credential need not be empty:
  here the token request is answered with such a body.
\<close>

theorem partial_token_counterexample:
  "fst (call brokenToken (demoAPI\<lparr>APIToken := zeroToken\<rparr>) world0)
     = Inl (TokenDecodeError ''cannot unmarshal number into field of type string'')
   \<and> APIToken (fst (snd (call brokenToken (demoAPI\<lparr>APIToken := zeroToken\<rparr>) world0)))
     = \<lparr>Token = ''abc'', Expires = 0\<rparr>
   \<and> APIToken (fst (snd (call brokenToken (demoAPI\<lparr>APIToken := zeroToken\<rparr>) world0)))
     \<noteq> zeroToken"
  by code_simp

section \<open>Categories\<close>

lemma sends_prefix: "sends E q w w' \<Longrightarrow> prefix (events w) (events w')"
  by (simp add: sends_def)

lemma sends_first:
  "sends E q w w' \<Longrightarrow> NewRequest E q = None \<Longrightarrow> prefix (events w @ [GET q]) (events w')"
  by (simp add: sends_def)

lemma call_retry_world:
  "snd (snd (call_retry E a q w)) = snd (snd (assignToken E a w))
   \<or> snd (snd (call_retry E a q w)) =
        snd (getResults E (fst (snd (assignToken E a w))) q (snd (snd (assignToken E a w))))"
  by (cases "assignToken E a w" rule: prod_cases3)
     (simp add: call_retry_def split: option.split sum.split prod.split)

lemma call_retry_prefix: "prefix (events w) (events (snd (snd (call_retry E a q w))))"
proof -
  let ?t = "assignToken E a w"
  let ?g = "getResults E (fst (snd ?t)) q (snd (snd ?t))"
  have 1: "prefix (events w) (events (snd (snd ?t)))"
    using assignToken_world [of E a w] by (rule sends_prefix)
  have 2: "prefix (events (snd (snd ?t))) (events (snd ?g))"
    using getResults_sends [of E q "snd (snd ?t)" "fst (snd ?t)"] by (rule sends_prefix)
  from 1 2 have 3: "prefix (events w) (events (snd ?g))"
    by (rule prefix_order.trans)
  from call_retry_world [of E a q w] 1 3 show ?thesis
    by (elim disjE) simp_all
qed

lemma call_request_world:
  "snd (snd (call_request E a w)) =
     snd (getResults E (addCategories a) (assemble (addCategories a)) w)
   \<or> snd (snd (call_request E a w)) =
     snd (snd (call_retry E (addCategories a) (assemble (addCategories a))
       (snd (getResults E (addCategories a) (assemble (addCategories a)) w))))"
proof (cases "getResults E (addCategories a) (assemble (addCategories a)) w")
  case (Pair g w1)
  show ?thesis
  proof (cases g)
    case (Inl err)
    with Pair show ?thesis by (simp add: call_request_def Let_def)
  next
    case (Inr r)
    show ?thesis
    proof (cases "processResponse E (addCategories a) r")
      case (Inl err)
      with Pair Inr show ?thesis
        by (cases err) (simp_all add: call_request_def Let_def)
    next
      case (Inr data)
      with Pair \<open>g = Inr r\<close> show ?thesis by (simp add: call_request_def Let_def)
    qed
  qed
qed

lemma call_request_first:
  assumes "NewRequest E (assemble (addCategories a)) = None"
  shows "prefix (events w @ [GET (assemble (addCategories a))])
     (events (snd (snd (call_request E a w))))"
proof -
  let ?a = "addCategories a"
  let ?g = "getResults E ?a (assemble ?a) w"
  have 1: "prefix (events w @ [GET (assemble ?a)]) (events (snd ?g))"
    using getResults_sends [of E "assemble ?a" w ?a] assms by (rule sends_first)
  have 2: "prefix (events (snd ?g)) (events (snd (snd (call_retry E ?a (assemble ?a) (snd ?g)))))"
    by (rule call_retry_prefix)
  from 1 2 have 3: "prefix (events w @ [GET (assemble ?a)])
      (events (snd (snd (call_retry E ?a (assemble ?a) (snd ?g)))))"
    by (rule prefix_order.trans)
  from call_request_world [of E a w] 1 3 show ?thesis
    by (elim disjE) simp_all
qed

lemma fold_Category: "fold Category cs a = a\<lparr>categories := categories a @ cs\<rparr>"
  by (induction cs arbitrary: a) (simp_all add: Category_def)

lemma Join_Cons: "Join (x # xs) sep = x @ concat (map (\<lambda>y. sep @ y) xs)"
  by (induction xs arbitrary: x) simp_all

text \<open>
  Claim C8. After the invocations \<^verbatim>\<open>Category(c)\<close> for the codes \<open>cs\<close>, in this order,
  the category list is the former list followed by \<open>cs\<close> (so it has grown by their
  number) and the query string is unchanged. At call time a list that is not empty, of
  first element \<open>c\<close> and remainder \<open>rest\<close>, enters the request string as the single
  parameter \<^verbatim>\<open>&category=\<close> followed by the decimal codes in list order with \<^verbatim>\<open>;\<close>
  between them, after the accumulated query and before the application identifier;
  and with a valid token this string is the URL of the first request the call sends.
\<close>

theorem categories_joined_at_call:
  "categories (fold Category cs a) = categories a @ cs
   \<and> length (categories (fold Category cs a)) = length (categories a) + length cs
   \<and> Query (fold Category cs a) = Query a
   \<and> (categories a @ cs = c # rest \<longrightarrow>
        assemble (addCategories (fold Category cs a)) =
          url a @ ''&token='' @ Token (APIToken a) @ Query a
            @ ''&category='' @ Itoa c @ concat (map (\<lambda>x. '';'' @ Itoa x) rest)
            @ ''&app_id='' @ appID a)
   \<and> (IsValid (now w) (APIToken a)
        \<and> NewRequest E (assemble (addCategories (fold Category cs a))) = None \<longrightarrow>
        prefix (events w @ [GET (assemble (addCategories (fold Category cs a)))])
          (events (snd (snd (call E (fold Category cs a) w)))))"
proof (intro conjI impI)
  let ?b = "fold Category cs a"
  show "categories ?b = categories a @ cs"
    and "length (categories ?b) = length (categories a) + length cs"
    and "Query ?b = Query a"
    by (simp_all add: fold_Category)
  show "assemble (addCategories ?b) =
          url a @ ''&token='' @ Token (APIToken a) @ Query a
            @ ''&category='' @ Itoa c @ concat (map (\<lambda>x. '';'' @ Itoa x) rest)
            @ ''&app_id='' @ appID a"
    if that: "categories a @ cs = c # rest"
  proof -
    have "Join (map Itoa (categories a @ cs)) '';''
        = Itoa c @ concat (map (\<lambda>x. '';'' @ Itoa x) rest)"
      unfolding that by (simp add: Join_Cons comp_def)
    moreover have "categories a @ cs \<noteq> []"
      unfolding that by simp
    ultimately show ?thesis
      by (simp add: fold_Category addCategories_def assemble_def)
  qed
  show "prefix (events w @ [GET (assemble (addCategories ?b))])
          (events (snd (snd (call E ?b w))))"
    if that: "IsValid (now w) (APIToken a)
        \<and> NewRequest E (assemble (addCategories ?b)) = None"
  proof -
    from that have "IsValid (now w) (APIToken ?b)"
      by (simp add: fold_Category)
    then have "call_body E ?b w = call_request E ?b w"
      by (simp add: call_body_def ensureToken_def)
    then have "snd (snd (call E ?b w)) = snd (snd (call_request E ?b w))"
      by (simp add: call_proj)
    moreover from that have "NewRequest E (assemble (addCategories ?b)) = None" ..
    note call_request_first [OF this, of w]
    ultimately show ?thesis
      by simp
  qed
qed


theorem categories_joined_at_call_witness:
  "length (categories (Category 4 (Category 41 (Category 18 demoAPI)))) = 3
   \<and> Query (Category 4 (Category 41 (Category 18 demoAPI))) = []
   \<and> assemble (addCategories (Category 4 (Category 41 (Category 18 demoAPI))))
      = ''https://torrentapi.org/pubapi_v2.php?&token=some_token&category=18;41;4&app_id=test''
   \<and> prefix [GET ''https://torrentapi.org/pubapi_v2.php?&token=some_token&category=18;41;4&app_id=test'']
        (events (snd (snd (call (demo [ok ''empty''])
           (Category 4 (Category 41 (Category 18 demoAPI))) world0))))"
proof -
  let ?b = "Category 4 (Category 41 (Category 18 demoAPI))"
  let ?q = "''https://torrentapi.org/pubapi_v2.php?&token=some_token&category=18;41;4&app_id=test''"
  have f: "fold Category [18, 41, 4] demoAPI = ?b"
    by simp
  have v: "IsValid (now world0) (APIToken demoAPI)"
    by code_simp
  have n: "NewRequest (demo [ok ''empty'']) (assemble (addCategories ?b)) = None"
    by (simp add: demo_def)
  have q: "assemble (addCategories ?b) = ?q"
    by code_simp
  have e: "events world0 = []"
    by (simp add: world0_def)
  have l: "length (categories demoAPI) = 0" and y: "Query demoAPI = []"
    by (simp_all add: demoAPI_def)
  from categories_joined_at_call [of "[18, 41, 4]" demoAPI 18 "[41, 4]" world0 "demo [ok ''empty'']"]
  have "length (categories ?b) = length (categories demoAPI) + length [18 :: go_int, 41, 4]"
    and "Query ?b = Query demoAPI"
    and "prefix (events world0 @ [GET (assemble (addCategories ?b))])
          (events (snd (snd (call (demo [ok ''empty'']) ?b world0))))"
    unfolding f using v n by simp_all
  then show ?thesis
    unfolding q e l y by (simp add: q)
qed

end
